theory Spec2Isabelle
  imports Main
begin

section \<open>The study planner's plan generation (\<open>app.py\<close>, \<open>generate_simple_plan\<close>)\<close>

text \<open>
  The model follows \<open>generate_simple_plan\<close> and \<open>pick_hint\<close> line by line.
  Python integers are \<open>int\<close>, strings are \<open>string\<close>, the dictionary appended to
  \<open>plan\<close> is the record \<open>chunk\<close>, and the local variables mutated by the loops are
  the record \<open>state\<close>. A raise is \<open>Inl\<close> of the exception; a run that never returns
  is \<open>None\<close>.
\<close>

subsection \<open>Python floats: what \<open>float(daily_hours)\<close>, \<open>hours * 60\<close> and \<open>int(...)\<close> do\<close>

datatype py_error = ValueError | OverflowError

text \<open>
  A double is \<open>Finite m e\<close> with value \<open>m * 2 ^ e\<close> (\<open>\<bar>m\<bar> < 2 ^ 53\<close>,
  \<open>- 1074 \<le> e\<close>, value below \<open>2 ^ 1024\<close>), an infinity or a NaN.
\<close>

datatype pyfloat = Finite int int | PosInf | NegInf | NaN

text \<open>
  The argument \<open>daily_hours\<close> arrives from JSON and is used twice only, in
  \<open>float(daily_hours) if daily_hours else 2.0\<close> under a bare \<open>except\<close>:
  \<^item> \<open>Falsy\<close>: the truth test fails (\<open>None\<close>, \<open>""\<close>, \<open>0\<close>, \<open>0.0\<close>, \<open>False\<close>);
  \<^item> \<open>NoFloat\<close>: the value is truthy and \<open>float\<close> raises (\<open>"abc"\<close>, a list);
  \<^item> \<open>AsFloat f\<close>: the value is truthy and \<open>float\<close> returns \<open>f\<close>
    (\<open>1\<close>, \<open>"1.5"\<close>, \<open>"0"\<close>, \<open>-1\<close>, \<open>"nan"\<close>, \<open>"inf"\<close>).
\<close>

datatype hours_arg = Falsy | NoFloat | AsFloat pyfloat

fun bitlen :: "nat \<Rightarrow> nat" where
  "bitlen n = (if n = 0 then 0 else Suc (bitlen (n div 2)))"

declare bitlen.simps [simp del]

definition round_shift :: "nat \<Rightarrow> nat \<Rightarrow> nat" where
  \<comment> \<open>\<open>p / 2 ^ k\<close> rounded to the nearest integer, ties to even\<close>
  "round_shift p k =
     (let q = p div 2 ^ k; r = p mod 2 ^ k
      in if 2 ^ k < 2 * r \<or> (2 * r = 2 ^ k \<and> odd q) then q + 1 else q)"

definition overflow_bound :: int where
  \<comment> \<open>the first magnitude that no finite double holds\<close>
  "overflow_bound = 2 ^ 1024"

definition float_times :: "pyfloat \<Rightarrow> nat \<Rightarrow> pyfloat" where
  \<comment> \<open>\<open>x * c\<close> for a positive integer constant \<open>c\<close> such as \<open>60\<close>: the exact
      product rounded to 53 bits, infinite from \<open>2 ^ 1024\<close> on\<close>
  "float_times x c =
     (case x of
        Finite m e \<Rightarrow>
          (let p = nat \<bar>m\<bar> * c;
               k = bitlen p - 53;
               m' = int (round_shift p k);
               e' = e + int k
           in if 0 \<le> e' \<and> overflow_bound \<le> m' * 2 ^ nat e'
              then (if m < 0 then NegInf else PosInf)
              else Finite (sgn m * m') e')
      | PosInf \<Rightarrow> PosInf
      | NegInf \<Rightarrow> NegInf
      | NaN \<Rightarrow> NaN)"

definition float_to_int :: "pyfloat \<Rightarrow> py_error + int" where
  \<comment> \<open>\<open>int(x)\<close>: truncation towards zero; raises on infinities and NaN\<close>
  "float_to_int x =
     (case x of
        Finite m e \<Rightarrow>
          Inr (if 0 \<le> e then m * 2 ^ nat e else sgn m * (\<bar>m\<bar> div 2 ^ nat (- e)))
      | PosInf \<Rightarrow> Inl OverflowError
      | NegInf \<Rightarrow> Inl OverflowError
      | NaN \<Rightarrow> Inl ValueError)"

definition parse_hours :: "hours_arg \<Rightarrow> pyfloat" where
  \<comment> \<open>the \<open>try\<close> block: \<open>2.0\<close> for a falsy argument and on any exception\<close>
  "parse_hours daily_hours =
     (case daily_hours of
        Falsy \<Rightarrow> Finite 2 0
      | NoFloat \<Rightarrow> Finite 2 0
      | AsFloat f \<Rightarrow> f)"

definition daily_quota_of :: "hours_arg \<Rightarrow> py_error + int" where
  \<comment> \<open>\<open>daily_quota = int(hours * 60)\<close>, outside the \<open>try\<close>\<close>
  "daily_quota_of daily_hours = float_to_int (float_times (parse_hours daily_hours) 60)"

subsection \<open>Formatting \<open>f"Day {day}"\<close>\<close>

fun str_nat :: "nat \<Rightarrow> string" where
  "str_nat n =
     (if n < 10 then [''0123456789'' ! n]
      else str_nat (n div 10) @ [''0123456789'' ! (n mod 10)])"

declare str_nat.simps [simp del]

definition str_int :: "int \<Rightarrow> string" where
  "str_int i = (if i < 0 then ''-'' @ str_nat (nat (- i)) else str_nat (nat i))"

definition day_label :: "int \<Rightarrow> string" where
  "day_label d = ''Day '' @ str_int d"

subsection \<open>\<open>pick_hint\<close>\<close>

definition hints :: "string \<rightharpoonup> string" where
  \<comment> \<open>the dictionary of \<open>pick_hint\<close>; each emoji is written as its UTF-8 bytes\<close>
  "hints =
     [''easy'' \<mapsto>
        ''Quick win '' @ [CHR 0xF0, CHR 0x9F, CHR 0x8E, CHR 0xAF]
          @ '' - Build confidence with this topic'',
      ''medium'' \<mapsto>
        ''Steady pace '' @ [CHR 0xF0, CHR 0x9F, CHR 0x9A, CHR 0x80]
          @ '' - Focus on core concepts'',
      ''hard'' \<mapsto>
        ''Deep focus '' @ [CHR 0xF0, CHR 0x9F, CHR 0x94, CHR 0xA5]
          @ '' - Break into smaller parts'']"

definition pick_hint :: "string \<Rightarrow> string" where
  "pick_hint level =
     (case hints level of
        Some h \<Rightarrow> h
      | None \<Rightarrow> ''Stay focused! '' @ [CHR 0xE2, CHR 0xAD, CHR 0x90])"

subsection \<open>The plan entries and the loop variables\<close>

record chunk =
  day :: string
  course :: string
  topic :: string
  difficulty :: string
  suggested_minutes :: int
  ai_hint :: string
  break_after :: "int option"

text \<open>
  The variables \<open>remaining\<close>, \<open>day\<close>, \<open>used_today\<close> and \<open>plan\<close> of the source;
  \<open>day\<close> is \<open>day_n\<close> here, since \<open>day\<close> is the key of the entry.
\<close>

record state =
  remaining :: int
  day_n :: int
  used_today :: int
  plan :: "chunk list"

definition break_for :: "int \<Rightarrow> int option" where
  \<comment> \<open>\<open>10 if chunk >= 60 else 5 if chunk >= 30 else None\<close>\<close>
  "break_for c = (if 60 \<le> c then Some 10 else if 30 \<le> c then Some 5 else None)"

definition rollover :: "int \<Rightarrow> state \<Rightarrow> state" where
  \<comment> \<open>\<open>if used_today >= daily_quota: day += 1; used_today = 0\<close>\<close>
  "rollover daily_quota s =
     (if daily_quota \<le> used_today s
      then s\<lparr>day_n := day_n s + 1, used_today := 0\<rparr>
      else s)"

definition carve :: "int \<Rightarrow> string \<Rightarrow> string \<Rightarrow> string \<Rightarrow> state \<Rightarrow> state" where
  \<comment> \<open>the rest of the body of the \<open>while\<close> loop\<close>
  "carve daily_quota crs tp level s =
     (let c = min (remaining s) (daily_quota - used_today s)
      in s\<lparr>remaining := remaining s - c,
            used_today := used_today s + c,
            plan := plan s @
              [\<lparr>day = day_label (day_n s),
                course = crs,
                topic = tp,
                difficulty = level,
                suggested_minutes = c,
                ai_hint = pick_hint level,
                break_after = break_for c\<rparr>]\<rparr>)"

definition body :: "int \<Rightarrow> string \<Rightarrow> string \<Rightarrow> string \<Rightarrow> state \<Rightarrow> state" where
  "body daily_quota crs tp level s = carve daily_quota crs tp level (rollover daily_quota s)"

partial_function (option)
  while_loop :: "int \<Rightarrow> string \<Rightarrow> string \<Rightarrow> string \<Rightarrow> state \<Rightarrow> state option"
where
  "while_loop daily_quota crs tp level s =
     (if 0 < remaining s
      then while_loop daily_quota crs tp level (body daily_quota crs tp level s)
      else Some s)"

declare while_loop.simps [code]

definition suggested_for :: "int \<Rightarrow> string \<Rightarrow> int" where
  "suggested_for base_minutes level =
     max 15 (if level = ''easy'' then base_minutes - 5
             else if level = ''hard'' then base_minutes + 10
             else base_minutes)"

definition course_at :: "string list \<Rightarrow> nat \<Rightarrow> string" where
  \<comment> \<open>\<open>courses[i] if i < len(courses) else "General"\<close>\<close>
  "course_at courses i = (if i < length courses then courses ! i else ''General'')"

definition level_at :: "string list \<Rightarrow> nat \<Rightarrow> string" where
  \<comment> \<open>\<open>difficulties[i] if i < len(difficulties) else "medium"\<close>\<close>
  "level_at difficulties i =
     (if i < length difficulties then difficulties ! i else ''medium'')"

definition for_body ::
  "int \<Rightarrow> int \<Rightarrow> string list \<Rightarrow> string list \<Rightarrow> nat \<Rightarrow> string \<Rightarrow> state \<Rightarrow> state option"
where
  \<comment> \<open>one pass of the \<open>for\<close> loop, for the topic \<open>tp\<close> at index \<open>i\<close>\<close>
  "for_body daily_quota base_minutes courses difficulties i tp s =
     (let level = level_at difficulties i
      in while_loop daily_quota (course_at courses i) tp level
           (s\<lparr>remaining := suggested_for base_minutes level\<rparr>))"

fun for_loop ::
  "int \<Rightarrow> int \<Rightarrow> string list \<Rightarrow> string list \<Rightarrow> nat \<Rightarrow> string list \<Rightarrow> state \<Rightarrow> state option"
where
  "for_loop daily_quota base_minutes courses difficulties i [] s = Some s"
| "for_loop daily_quota base_minutes courses difficulties i (tp # rest) s =
     (case for_body daily_quota base_minutes courses difficulties i tp s of
        None \<Rightarrow> None
      | Some s' \<Rightarrow> for_loop daily_quota base_minutes courses difficulties (Suc i) rest s')"

definition base_minutes_of :: "int \<Rightarrow> nat \<Rightarrow> int" where
  \<comment> \<open>\<open>max(20, daily_quota // len(topics))\<close>\<close>
  "base_minutes_of daily_quota n = max 20 (daily_quota div int n)"

definition initial :: state where
  \<comment> \<open>\<open>plan = []; day = 1; used_today = 0\<close>; \<open>remaining\<close> is assigned before it is read\<close>
  "initial = \<lparr>remaining = 0, day_n = 1, used_today = 0, plan = []\<rparr>"

definition generate_simple_plan ::
  "string list \<Rightarrow> string list \<Rightarrow> string list \<Rightarrow> hours_arg \<Rightarrow> (py_error + chunk list) option"
where
  "generate_simple_plan courses topics difficulties daily_hours =
     (case daily_quota_of daily_hours of
        Inl err \<Rightarrow> Some (Inl err)
      | Inr daily_quota \<Rightarrow>
          if topics = [] then Some (Inr [])
          else
            (case for_loop daily_quota (base_minutes_of daily_quota (length topics))
                    courses difficulties 0 topics initial of
               None \<Rightarrow> None
             | Some s \<Rightarrow> Some (Inr (plan s))))"

subsection \<open>Notions used to state the properties\<close>

definition carved :: "int \<Rightarrow> state \<Rightarrow> int" where
  \<comment> \<open>the value of \<open>chunk\<close> in the pass of the \<open>while\<close> loop that starts in \<open>s\<close>\<close>
  "carved q s = min (remaining s) (q - used_today (rollover q s))"

abbreviation total_minutes :: "chunk list \<Rightarrow> int" where
  "total_minutes xs \<equiv> sum_list (map suggested_minutes xs)"

text \<open>
  The points of a run at which \<open>used_today\<close> can be observed: \<open>while_heads\<close> are the
  states in which the test of the \<open>while\<close> loop is evaluated for one topic,
  \<open>for_heads\<close> those of a whole \<open>for\<close> loop, and \<open>reaches\<close> adds the state right
  after the \<open>if\<close> that starts a new day. Between two such points \<open>used_today\<close> is
  not assigned.
\<close>

inductive while_heads :: "int \<Rightarrow> string \<Rightarrow> string \<Rightarrow> string \<Rightarrow> state \<Rightarrow> state \<Rightarrow> bool"
  for q c t l s0
where
  first_test: "while_heads q c t l s0 s0"
| next_test: "while_heads q c t l s0 s \<Longrightarrow> 0 < remaining s \<Longrightarrow> while_heads q c t l s0 (body q c t l s)"

code_pred while_heads .

inductive for_heads ::
  "int \<Rightarrow> int \<Rightarrow> string list \<Rightarrow> string list \<Rightarrow> nat \<Rightarrow> string list \<Rightarrow> state \<Rightarrow> state \<Rightarrow> bool"
  for q b cs ds
where
  this_topic:
    "while_heads q (course_at cs i) tp (level_at ds i)
       (s0\<lparr>remaining := suggested_for b (level_at ds i)\<rparr>) s
     \<Longrightarrow> for_heads q b cs ds i (tp # rest) s0 s"
| later_topic:
    "for_body q b cs ds i tp s0 = Some s1 \<Longrightarrow> for_heads q b cs ds (Suc i) rest s1 s
     \<Longrightarrow> for_heads q b cs ds i (tp # rest) s0 s"

code_pred for_heads .

definition reaches :: "string list \<Rightarrow> string list \<Rightarrow> string list \<Rightarrow> hours_arg \<Rightarrow> state \<Rightarrow> bool" where
  "reaches courses topics difficulties daily_hours s \<longleftrightarrow>
     (\<exists>q h. daily_quota_of daily_hours = Inr q \<and> topics \<noteq> []
        \<and> for_heads q (base_minutes_of q (length topics)) courses difficulties 0 topics initial h
        \<and> (s = h \<or> (0 < remaining h \<and> s = rollover q h)))"

subsection \<open>Invariants of the loops\<close>

text \<open>
  \<open>bounds_inv\<close>: the counter and every chunk stay within the quota.
  \<open>days_inv\<close>: the labels of the plan are those of a sorted list of day numbers that
  starts at \<open>1\<close> and ends at or before the current day.
  \<open>fill_inv\<close>: the days before the current one are full, so the minutes planned so
  far are \<open>q * (day - 1) + used_today\<close>.
\<close>

definition bounds_inv :: "int \<Rightarrow> state \<Rightarrow> bool" where
  "bounds_inv q s \<longleftrightarrow>
     0 \<le> used_today s \<and> used_today s \<le> q
     \<and> (\<forall>x\<in>set (plan s). 1 \<le> suggested_minutes x \<and> suggested_minutes x \<le> q)"

definition days_inv :: "int \<Rightarrow> state \<Rightarrow> bool" where
  "days_inv q s \<longleftrightarrow>
     (\<exists>ns. map day (plan s) = map day_label ns \<and> sorted ns
        \<and> (\<forall>n\<in>set ns. n \<le> day_n s) \<and> (ns \<noteq> [] \<longrightarrow> hd ns = 1))
     \<and> (plan s = [] \<longrightarrow> day_n s = 1 \<and> used_today s < q)"

definition fill_inv :: "int \<Rightarrow> state \<Rightarrow> bool" where
  "fill_inv q s \<longleftrightarrow>
     0 \<le> used_today s \<and> used_today s \<le> q
     \<and> total_minutes (plan s) = q * (day_n s - 1) + used_today s"

text \<open>
  \<open>group_ok\<close>: what the \<open>while\<close> loop appends for one topic with \<open>sug\<close> suggested
  minutes, after the chunks \<open>before\<close>: a non-empty run \<open>g\<close> of chunks of that topic
  whose minutes add up to \<open>sug\<close>; the first takes what is left of the current day, and
  it is the only one exactly when that is enough. \<open>groups_inv\<close>: the plan consists of
  one such run for each topic handled so far.
\<close>

definition group_ok ::
  "int \<Rightarrow> int \<Rightarrow> string \<Rightarrow> string \<Rightarrow> string \<Rightarrow> chunk list \<Rightarrow> chunk list \<Rightarrow> bool"
where
  "group_ok q sug c t l before g \<longleftrightarrow>
     g \<noteq> []
     \<and> (\<forall>x\<in>set g. course x = c \<and> topic x = t \<and> difficulty x = l \<and> ai_hint x = pick_hint l)
     \<and> total_minutes g = sug
     \<and> suggested_minutes (hd g) = min sug (q - total_minutes before mod q)
     \<and> (length g = 1 \<longleftrightarrow> sug \<le> q - total_minutes before mod q)"

definition groups_inv ::
  "int \<Rightarrow> int \<Rightarrow> string list \<Rightarrow> string list \<Rightarrow> string list \<Rightarrow> state \<Rightarrow> bool"
where
  "groups_inv q b cs ds pre s \<longleftrightarrow>
     fill_inv q s
     \<and> (\<exists>groups. plan s = concat groups \<and> length groups = length pre
          \<and> (\<forall>j<length pre.
                group_ok q (suggested_for b (level_at ds j)) (course_at cs j) (pre ! j)
                  (level_at ds j) (concat (take j groups)) (groups ! j)))"

section \<open>The loops\<close>

subsection \<open>One pass of the \<open>while\<close> loop\<close>

lemma rollover_fields [simp]:
  "remaining (rollover q s) = remaining s"
  "plan (rollover q s) = plan s"
  "used_today (rollover q s) = (if q \<le> used_today s then 0 else used_today s)"
  "day_n (rollover q s) = (if q \<le> used_today s then day_n s + 1 else day_n s)"
  by (simp_all add: rollover_def)

lemma body_fields:
  "remaining (body q c t l s) = remaining s - carved q s"
  "used_today (body q c t l s) = used_today (rollover q s) + carved q s"
  "day_n (body q c t l s) = day_n (rollover q s)"
  "plan (body q c t l s) = plan s @
     [\<lparr>day = day_label (day_n (rollover q s)), course = c, topic = t, difficulty = l,
       suggested_minutes = carved q s, ai_hint = pick_hint l,
       break_after = break_for (carved q s)\<rparr>]"
  by (simp_all add: body_def carve_def carved_def Let_def)

lemma carved_pos: "0 < q \<Longrightarrow> 0 < remaining s \<Longrightarrow> 1 \<le> carved q s \<and> carved q s \<le> remaining s"
  by (simp add: carved_def)

lemma suggested_for_ge: "15 \<le> suggested_for b l"
  by (simp add: suggested_for_def)

subsection \<open>The \<open>while\<close> loop returns under a positive quota, and only then\<close>

lemma while_rule:
  assumes q: "0 < q"
    and init: "P s"
    and step: "\<And>s. P s \<Longrightarrow> 0 < remaining s \<Longrightarrow> P (body q c t l s)"
  shows "\<exists>s'. while_loop q c t l s = Some s' \<and> P s' \<and> remaining s' \<le> 0"
  using init
proof (induction s rule: measure_induct_rule [where f = "\<lambda>s. nat (remaining s)"])
  case (less s)
  show ?case
  proof (cases "0 < remaining s")
    case False
    then show ?thesis using less.prems by (simp add: while_loop.simps)
  next
    case True
    have "nat (remaining (body q c t l s)) < nat (remaining s)"
      using carved_pos [OF q True] True by (simp add: body_fields)
    from less.IH [OF this step [OF less.prems True]] True
    show ?thesis by (subst while_loop.simps) simp
  qed
qed

lemma while_returns_quota:
  assumes run: "while_loop q c t l s = Some s'"
    and start: "q \<le> used_today s" "0 < remaining s"
  shows "0 < q"
proof -
  have "q \<le> used_today s \<and> 0 < remaining s \<longrightarrow> 0 < q"
  proof (rule while_loop.raw_induct
      [where P = "\<lambda>q c t l s s'. q \<le> used_today s \<and> 0 < remaining s \<longrightarrow> 0 < q", OF _ run])
    fix w q c t l s y
    assume IH: "\<And>q c t l s y. w q c t l s = Some y \<Longrightarrow>
        q \<le> used_today s \<and> 0 < remaining s \<longrightarrow> 0 < q"
      and unfolded: "(if 0 < remaining s then w q c t l (body q c t l s) else Some s) = Some y"
    show "q \<le> used_today s \<and> 0 < remaining s \<longrightarrow> 0 < q"
    proof (intro impI, rule ccontr)
      assume a: "q \<le> used_today s \<and> 0 < remaining s" and "\<not> 0 < q"
      then have q: "q \<le> 0" by simp
      have next_run: "w q c t l (body q c t l s) = Some y"
        using unfolded a by simp
      have "q \<le> used_today (body q c t l s) \<and> 0 < remaining (body q c t l s)"
        using q a by (simp add: body_fields carved_def)
      with IH [OF next_run] q show False by simp
    qed
  qed
  with start show ?thesis by simp
qed

lemma while_diverges:
  assumes "q \<le> 0" "q \<le> used_today s" "0 < remaining s"
  shows "while_loop q c t l s = None"
proof (cases "while_loop q c t l s")
  case None
  then show ?thesis .
next
  case (Some s')
  from while_returns_quota [OF Some assms(2,3)] assms(1) show ?thesis by simp
qed

subsection \<open>The \<open>for\<close> loop and the whole function\<close>

lemma for_rule:
  assumes init: "Q pre s"
    and step: "\<And>pre tp s. Q pre s \<Longrightarrow>
       \<exists>s'. for_body q b cs ds (length pre) tp s = Some s' \<and> Q (pre @ [tp]) s'"
  shows "\<exists>s'. for_loop q b cs ds (length pre) tps s = Some s' \<and> Q (pre @ tps) s'"
  using init
proof (induction tps arbitrary: pre s)
  case Nil
  then show ?case by simp
next
  case (Cons tp tps)
  from step [OF Cons.prems] obtain s1
    where s1: "for_body q b cs ds (length pre) tp s = Some s1" "Q (pre @ [tp]) s1" by blast
  from Cons.IH [OF s1(2)] s1(1) show ?case by simp
qed

lemma for_body_invariant:
  assumes q: "0 < q"
    and init: "P s"
    and assign: "\<And>s r. P s \<Longrightarrow> P (s\<lparr>remaining := r\<rparr>)"
    and step: "\<And>s c t l. P s \<Longrightarrow> 0 < remaining s \<Longrightarrow> P (body q c t l s)"
  shows "\<exists>s'. for_body q b cs ds i tp s = Some s' \<and> P s'"
proof -
  let ?s = "s\<lparr>remaining := suggested_for b (level_at ds i)\<rparr>"
  have "P ?s" by (rule assign [OF init])
  then have "\<exists>s'. while_loop q (course_at cs i) tp (level_at ds i) ?s = Some s'
        \<and> P s' \<and> remaining s' \<le> 0"
    using step by (intro while_rule [where P = P, OF q]) auto
  then show ?thesis by (auto simp: for_body_def)
qed

lemma for_loop_invariant:
  assumes q: "0 < q"
    and init: "P s"
    and assign: "\<And>s r. P s \<Longrightarrow> P (s\<lparr>remaining := r\<rparr>)"
    and step: "\<And>s c t l. P s \<Longrightarrow> 0 < remaining s \<Longrightarrow> P (body q c t l s)"
  shows "\<exists>s'. for_loop q b cs ds 0 ts s = Some s' \<and> P s'"
proof (rule for_rule [where Q = "\<lambda>pre. P" and pre = "[]" and tps = ts, simplified])
  show "P s" by (rule init)
next
  fix pre :: "string list" and tp s
  assume "P s"
  then show "\<exists>s'. for_body q b cs ds (length pre) tp s = Some s' \<and> P s'"
    using assign step by (intro for_body_invariant [where P = P, OF q]) auto
qed

lemma generate_diverges:
  assumes "daily_quota_of dh = Inr q" "q \<le> 0" "ts \<noteq> []"
  shows "generate_simple_plan cs ts ds dh = None"
proof -
  from assms(3) obtain tp rest where ts: "ts = tp # rest" by (cases ts) auto
  have "for_body q b cs ds 0 tp initial = None" for b
    unfolding for_body_def Let_def
    using assms(2) suggested_for_ge [of b "level_at ds 0"]
    by (intro while_diverges) (simp_all add: initial_def)
  then show ?thesis
    using assms(1) by (simp add: generate_simple_plan_def ts)
qed

lemma generate_returns:
  assumes "generate_simple_plan cs ts ds dh = Some (Inr pl)"
  shows "(ts = [] \<and> pl = []) \<or>
    (\<exists>q s. daily_quota_of dh = Inr q \<and> 0 < q \<and> ts \<noteq> [] \<and>
       for_loop q (base_minutes_of q (length ts)) cs ds 0 ts initial = Some s \<and> pl = plan s)"
proof (cases "daily_quota_of dh")
  case (Inl e)
  with assms show ?thesis by (simp add: generate_simple_plan_def)
next
  case (Inr q)
  show ?thesis
  proof (cases "ts = []")
    case True
    with assms Inr show ?thesis by (simp add: generate_simple_plan_def)
  next
    case False
    have "0 < q"
    proof (rule ccontr)
      assume "\<not> 0 < q"
      then have "q \<le> 0" by simp
      from generate_diverges [OF Inr this False] assms show False by simp
    qed
    with assms Inr False show ?thesis
      by (auto simp: generate_simple_plan_def split: option.splits)
  qed
qed

lemma returned_plan_invariant:
  assumes run: "generate_simple_plan cs ts ds dh = Some (Inr pl)"
    and init: "\<And>q. daily_quota_of dh = Inr q \<Longrightarrow> 0 < q \<Longrightarrow> P q initial"
    and assign: "\<And>q s r. 0 < q \<Longrightarrow> P q s \<Longrightarrow> P q (s\<lparr>remaining := r\<rparr>)"
    and step: "\<And>q s c t l. 0 < q \<Longrightarrow> P q s \<Longrightarrow> 0 < remaining s \<Longrightarrow> P q (body q c t l s)"
  shows "pl = [] \<or> (\<exists>q s. daily_quota_of dh = Inr q \<and> 0 < q \<and> P q s \<and> pl = plan s)"
  using generate_returns [OF run]
proof
  assume "ts = [] \<and> pl = []"
  then show ?thesis by simp
next
  assume "\<exists>q s. daily_quota_of dh = Inr q \<and> 0 < q \<and> ts \<noteq> [] \<and>
       for_loop q (base_minutes_of q (length ts)) cs ds 0 ts initial = Some s \<and> pl = plan s"
  then obtain q s where qs: "daily_quota_of dh = Inr q" "0 < q"
    "for_loop q (base_minutes_of q (length ts)) cs ds 0 ts initial = Some s" "pl = plan s"
    by blast
  have "P q initial" by (rule init [OF qs(1,2)])
  then have "\<exists>s'. for_loop q (base_minutes_of q (length ts)) cs ds 0 ts initial = Some s' \<and> P q s'"
    using assign [OF qs(2)] step [OF qs(2)]
    by (intro for_loop_invariant [where P = "P q", OF qs(2)]) auto
  with qs show ?thesis by auto
qed

lemma generate_total_invariant:
  assumes quota: "daily_quota_of dh = Inr q" "0 < q" and ts: "ts \<noteq> []"
    and init: "P initial"
    and assign: "\<And>s r. P s \<Longrightarrow> P (s\<lparr>remaining := r\<rparr>)"
    and step: "\<And>s c t l. P s \<Longrightarrow> 0 < remaining s \<Longrightarrow> P (body q c t l s)"
  shows "\<exists>s. generate_simple_plan cs ts ds dh = Some (Inr (plan s)) \<and> P s"
proof -
  have "\<exists>s'. for_loop q (base_minutes_of q (length ts)) cs ds 0 ts initial = Some s' \<and> P s'"
    using init assign step by (intro for_loop_invariant [where P = P, OF quota(2)]) auto
  then show ?thesis
    using quota(1) ts by (auto simp: generate_simple_plan_def)
qed

lemma while_heads_invariant:
  assumes "while_heads q c t l s0 s" and "P s0"
    and "\<And>s. P s \<Longrightarrow> 0 < remaining s \<Longrightarrow> P (body q c t l s)"
  shows "P s"
  using assms by (induction rule: while_heads.induct) auto

lemma for_heads_invariant:
  assumes heads: "for_heads q b cs ds i ts s0 s" and q: "0 < q" and init: "P s0"
    and assign: "\<And>s r. P s \<Longrightarrow> P (s\<lparr>remaining := r\<rparr>)"
    and step: "\<And>s c t l. P s \<Longrightarrow> 0 < remaining s \<Longrightarrow> P (body q c t l s)"
  shows "P s"
  using heads init
proof (induction rule: for_heads.induct)
  case (this_topic i tp s0 s rest)
  from this_topic(1) assign [OF this_topic(2)] step show ?case
    by (rule while_heads_invariant)
next
  case (later_topic i tp s0 s1 rest s)
  have "\<exists>s'. for_body q b cs ds i tp s0 = Some s' \<and> P s'"
    using later_topic.prems assign step
    by (intro for_body_invariant [where P = P, OF q]) auto
  with later_topic.hyps(1) have "P s1" by auto
  then show ?case by (rule later_topic.IH)
qed

subsection \<open>The quota of some arguments, and some plans\<close>

lemma quota_tiny: "daily_quota_of (AsFloat (Finite 1 (- 7))) = Inr 0"
  by code_simp

lemma quota_zero_string: "daily_quota_of (AsFloat (Finite 0 0)) = Inr 0"
  by code_simp

lemma quota_minus_one: "daily_quota_of (AsFloat (Finite (- 1) 0)) = Inr (- 60)"
  by code_simp

lemma quota_default: "daily_quota_of (AsFloat (Finite 2 0)) = Inr 120"
  by code_simp

lemma quota_nan: "daily_quota_of (AsFloat NaN) = Inl ValueError"
  by code_simp

lemma quota_one_hour: "daily_quota_of (AsFloat (Finite 1 0)) = Inr 60"
  by code_simp

lemma quota_half_hour: "daily_quota_of (AsFloat (Finite 1 (- 1))) = Inr 30"
  by code_simp

lemma two_hours_plan:
  "generate_simple_plan [''Math''] [''Algebra''] [''easy''] (AsFloat (Finite 2 0)) =
     Some (Inr [\<lparr>day = ''Day 1'', course = ''Math'', topic = ''Algebra'', difficulty = ''easy'',
                 suggested_minutes = 115, ai_hint = pick_hint ''easy'', break_after = Some 10\<rparr>])"
  by code_simp

lemma physics_plan:
  "generate_simple_plan [''Phys'', ''Phys''] [''Motion'', ''Energy''] [''hard'', ''hard'']
     (AsFloat (Finite 1 0)) =
   Some (Inr
     [\<lparr>day = ''Day 1'', course = ''Phys'', topic = ''Motion'', difficulty = ''hard'',
        suggested_minutes = 40, ai_hint = pick_hint ''hard'', break_after = Some 5\<rparr>,
      \<lparr>day = ''Day 1'', course = ''Phys'', topic = ''Energy'', difficulty = ''hard'',
        suggested_minutes = 20, ai_hint = pick_hint ''hard'', break_after = None\<rparr>,
      \<lparr>day = ''Day 2'', course = ''Phys'', topic = ''Energy'', difficulty = ''hard'',
        suggested_minutes = 20, ai_hint = pick_hint ''hard'', break_after = None\<rparr>])"
  by code_simp

lemma half_hour_plan:
  "generate_simple_plan [''Phys''] [''Motion''] [''hard''] (AsFloat (Finite 1 (- 1))) =
   Some (Inr
     [\<lparr>day = ''Day 1'', course = ''Phys'', topic = ''Motion'', difficulty = ''hard'',
        suggested_minutes = 30, ai_hint = pick_hint ''hard'', break_after = Some 5\<rparr>,
      \<lparr>day = ''Day 2'', course = ''Phys'', topic = ''Motion'', difficulty = ''hard'',
        suggested_minutes = 10, ai_hint = pick_hint ''hard'', break_after = None\<rparr>])"
  by code_simp

lemma short_lists_plan:
  "generate_simple_plan [] [''Algebra''] [] (AsFloat (Finite 2 0)) =
     Some (Inr [\<lparr>day = ''Day 1'', course = ''General'', topic = ''Algebra'',
                 difficulty = ''medium'', suggested_minutes = 120,
                 ai_hint = pick_hint ''medium'', break_after = Some 10\<rparr>])"
  by code_simp

text \<open>
  The fallback of the \<open>try\<close> block: a falsy argument and one that \<open>float\<close> refuses
  both give the quota and the result of \<open>2.0\<close> hours.
\<close>

lemma falsy_or_unparsable_hours_default:
  "daily_quota_of Falsy = Inr 120 \<and> daily_quota_of NoFloat = Inr 120
   \<and> generate_simple_plan cs ts ds Falsy = generate_simple_plan cs ts ds (AsFloat (Finite 2 0))
   \<and> generate_simple_plan cs ts ds NoFloat = generate_simple_plan cs ts ds (AsFloat (Finite 2 0))"
proof -
  have "daily_quota_of Falsy = daily_quota_of (AsFloat (Finite 2 0))"
    "daily_quota_of NoFloat = daily_quota_of (AsFloat (Finite 2 0))"
    by (simp_all add: daily_quota_of_def parse_hours_def)
  then show ?thesis
    by (simp add: generate_simple_plan_def quota_default)
qed

subsection \<open>Preservation of the invariants\<close>

lemma break_for_step:
  assumes "\<forall>x\<in>set (plan s). break_after x = break_for (suggested_minutes x)"
  shows "\<forall>x\<in>set (plan (body q c t l s)). break_after x = break_for (suggested_minutes x)"
  using assms by (simp add: body_fields)

lemma bounds_step:
  assumes "0 < q" "0 < remaining s"
    and "0 \<le> used_today s \<and> used_today s \<le> q
      \<and> (\<forall>x\<in>set (plan s). 1 \<le> suggested_minutes x \<and> suggested_minutes x \<le> q)"
  shows "0 \<le> used_today (body q c t l s) \<and> used_today (body q c t l s) \<le> q
      \<and> (\<forall>x\<in>set (plan (body q c t l s)). 1 \<le> suggested_minutes x \<and> suggested_minutes x \<le> q)"
  using assms by (auto simp: body_fields carved_def)

lemma bounds_inv_step:
  assumes "0 < q" "bounds_inv q s" "0 < remaining s"
  shows "bounds_inv q (body q c t l s)"
  using bounds_step [OF assms(1,3), of c t l] assms(2) by (simp add: bounds_inv_def)

lemma bounds_inv_assign: "bounds_inv q s \<Longrightarrow> bounds_inv q (s\<lparr>remaining := r\<rparr>)"
  by (simp add: bounds_inv_def)

lemma bounds_inv_initial: "0 < q \<Longrightarrow> bounds_inv q initial"
  by (simp add: bounds_inv_def initial_def)

lemma days_step:
  assumes inv: "days_inv q s"
  shows "days_inv q (body q c t l s)"
proof -
  from inv obtain ns where ns: "map day (plan s) = map day_label ns" "sorted ns"
    "\<forall>n\<in>set ns. n \<le> day_n s" "ns \<noteq> [] \<longrightarrow> hd ns = 1"
    and first: "plan s = [] \<longrightarrow> day_n s = 1 \<and> used_today s < q"
    unfolding days_inv_def by blast
  let ?d = "day_n (rollover q s)"
  have d: "day_n s \<le> ?d" by simp
  have "map day (plan (body q c t l s)) = map day_label (ns @ [?d])"
    using ns(1) by (simp add: body_fields)
  moreover have "sorted (ns @ [?d])"
    using ns(2,3) d by (auto simp: sorted_append)
  moreover have "\<forall>n\<in>set (ns @ [?d]). n \<le> day_n (body q c t l s)"
    using ns(3) d by (auto simp: body_fields)
  moreover have "hd (ns @ [?d]) = 1"
  proof (cases "ns = []")
    case True
    then have "plan s = []" using ns(1) by simp
    with first True show ?thesis by simp
  next
    case False
    with ns(4) show ?thesis by simp
  qed
  ultimately show ?thesis
    unfolding days_inv_def by (intro conjI exI [of _ "ns @ [?d]"]) (simp_all add: body_fields)
qed

lemma fill_step:
  assumes "0 < q" "0 < remaining s" "fill_inv q s"
  shows "fill_inv q (body q c t l s)"
proof -
  from assms(3) have u: "0 \<le> used_today s" "used_today s \<le> q"
    and tot: "total_minutes (plan s) = q * (day_n s - 1) + used_today s"
    by (simp_all add: fill_inv_def)
  have c: "1 \<le> carved q s" "carved q s \<le> q - used_today (rollover q s)"
    using assms(1,2) by (simp_all add: carved_def)
  have r: "q * (day_n (rollover q s) - 1) + used_today (rollover q s)
      = q * (day_n s - 1) + used_today s"
    using u by (simp add: algebra_simps)
  have "0 \<le> used_today (rollover q s)" using u by simp
  with c r tot show ?thesis
    by (simp add: fill_inv_def body_fields)
qed

lemma fill_used:
  assumes "0 < q" "fill_inv q s"
  shows "used_today (rollover q s) = total_minutes (plan s) mod q"
proof -
  from assms(2) have u: "0 \<le> used_today s" "used_today s \<le> q"
    and tot: "total_minutes (plan s) = q * (day_n s - 1) + used_today s"
    by (simp_all add: fill_inv_def)
  show ?thesis
  proof (cases "q \<le> used_today s")
    case True
    with u have "used_today s = q" by simp
    with tot have "total_minutes (plan s) = q * day_n s" by (simp add: algebra_simps)
    with True show ?thesis by simp
  next
    case False
    with u tot show ?thesis by simp
  qed
qed

subsection \<open>The chunks of one topic, and of all topics\<close>

lemma while_chunks:
  assumes q: "0 < q"
  shows "0 \<le> remaining s \<Longrightarrow>
    \<exists>s' g. while_loop q c t l s = Some s' \<and> plan s' = plan s @ g
      \<and> total_minutes g = remaining s
      \<and> (\<forall>x\<in>set g. course x = c \<and> topic x = t \<and> difficulty x = l \<and> ai_hint x = pick_hint l)
      \<and> (remaining s = 0 \<longrightarrow> g = [])
      \<and> (0 < remaining s \<longrightarrow> g \<noteq> [] \<and> suggested_minutes (hd g) = carved q s
            \<and> (length g = 1 \<longleftrightarrow> remaining s \<le> q - used_today (rollover q s)))"
proof (induction s rule: measure_induct_rule [where f = "\<lambda>s. nat (remaining s)"])
  case (less s)
  show ?case
  proof (cases "0 < remaining s")
    case False
    with less.prems have "remaining s = 0" by simp
    then show ?thesis
      by (intro exI [of _ s] exI [of _ "[]"]) (simp add: while_loop.simps)
  next
    case True
    let ?s1 = "body q c t l s"
    let ?x = "\<lparr>day = day_label (day_n (rollover q s)), course = c, topic = t, difficulty = l,
       suggested_minutes = carved q s, ai_hint = pick_hint l,
       break_after = break_for (carved q s)\<rparr>"
    have cv: "1 \<le> carved q s" "carved q s \<le> remaining s"
      using carved_pos [OF q True] by simp_all
    have smaller: "nat (remaining ?s1) < nat (remaining s)" and nonneg: "0 \<le> remaining ?s1"
      using cv True by (simp_all add: body_fields)
    from less.IH [OF smaller nonneg] obtain s' g where
      run: "while_loop q c t l ?s1 = Some s'" and pl: "plan s' = plan ?s1 @ g"
      and tot: "total_minutes g = remaining ?s1"
      and fields: "\<forall>x\<in>set g. course x = c \<and> topic x = t \<and> difficulty x = l \<and> ai_hint x = pick_hint l"
      and none: "remaining ?s1 = 0 \<longrightarrow> g = []"
      and some: "0 < remaining ?s1 \<longrightarrow> g \<noteq> []"
      by blast
    have one: "g = [] \<longleftrightarrow> remaining s \<le> q - used_today (rollover q s)"
    proof -
      have "g = [] \<longleftrightarrow> remaining ?s1 = 0" using none some nonneg by auto
      also have "\<dots> \<longleftrightarrow> carved q s = remaining s" by (auto simp: body_fields)
      also have "\<dots> \<longleftrightarrow> remaining s \<le> q - used_today (rollover q s)"
        by (auto simp: carved_def)
      finally show ?thesis .
    qed
    have "while_loop q c t l s = Some s'"
      using run True by (subst while_loop.simps) simp
    moreover have "plan s' = plan s @ (?x # g)"
      using pl by (simp add: body_fields)
    moreover have "total_minutes (?x # g) = remaining s"
      using tot by (simp add: body_fields)
    moreover have "\<forall>x\<in>set (?x # g). course x = c \<and> topic x = t \<and> difficulty x = l \<and> ai_hint x = pick_hint l"
      using fields by simp
    moreover have "length (?x # g) = 1 \<longleftrightarrow> remaining s \<le> q - used_today (rollover q s)"
      using one by simp
    ultimately show ?thesis
      using True by (intro exI [of _ s'] exI [of _ "?x # g"]) simp
  qed
qed

lemma groups_step:
  assumes q: "0 < q" and inv: "groups_inv q b cs ds pre s"
  shows "\<exists>s'. for_body q b cs ds (length pre) tp s = Some s' \<and> groups_inv q b cs ds (pre @ [tp]) s'"
proof -
  let ?i = "length pre"
  let ?l = "level_at ds ?i" and ?c = "course_at cs ?i"
  let ?sug = "suggested_for b ?l"
  let ?s0 = "s\<lparr>remaining := ?sug\<rparr>"
  from inv have fill: "fill_inv q s" by (simp add: groups_inv_def)
  from inv obtain groups where groups: "plan s = concat groups" "length groups = length pre"
    and ok: "\<forall>j<length pre. group_ok q (suggested_for b (level_at ds j)) (course_at cs j) (pre ! j)
                  (level_at ds j) (concat (take j groups)) (groups ! j)"
    unfolding groups_inv_def by blast
  have sug: "0 < ?sug" using suggested_for_ge [of b ?l] by simp
  have fill0: "fill_inv q ?s0" using fill by (simp add: fill_inv_def)
  have "\<exists>s'. while_loop q ?c tp ?l ?s0 = Some s' \<and> fill_inv q s' \<and> remaining s' \<le> 0"
    using fill0 fill_step [OF q] by (intro while_rule [where P = "fill_inv q", OF q]) auto
  then obtain s' where run: "while_loop q ?c tp ?l ?s0 = Some s'" and fill': "fill_inv q s'"
    by blast
  have "0 \<le> remaining ?s0" using sug by simp
  from while_chunks [OF q this, of ?c tp ?l] run obtain g where
    pl: "plan s' = plan ?s0 @ g" and tot: "total_minutes g = remaining ?s0"
    and fields: "\<forall>x\<in>set g. course x = ?c \<and> topic x = tp \<and> difficulty x = ?l \<and> ai_hint x = pick_hint ?l"
    and shape: "0 < remaining ?s0 \<longrightarrow> g \<noteq> [] \<and> suggested_minutes (hd g) = carved q ?s0
            \<and> (length g = 1 \<longleftrightarrow> remaining ?s0 \<le> q - used_today (rollover q ?s0))"
    by auto
  have used: "used_today (rollover q ?s0) = total_minutes (concat groups) mod q"
    using fill_used [OF q fill0] groups(1) by simp
  have new: "group_ok q ?sug ?c tp ?l (concat groups) g"
    using shape sug tot fields used by (simp add: group_ok_def carved_def)
  have "group_ok q (suggested_for b (level_at ds j)) (course_at cs j) ((pre @ [tp]) ! j)
      (level_at ds j) (concat (take j (groups @ [g]))) ((groups @ [g]) ! j)"
    if "j < length (pre @ [tp])" for j
  proof (cases "j < length pre")
    case True
    with ok groups(2) show ?thesis by (simp add: nth_append)
  next
    case False
    with that have "j = length pre" by simp
    with new groups(2) show ?thesis by (simp add: nth_append)
  qed
  moreover have "plan s' = concat (groups @ [g])" using pl groups(1) by simp
  moreover have "length (groups @ [g]) = length (pre @ [tp])" using groups(2) by simp
  ultimately have "groups_inv q b cs ds (pre @ [tp]) s'"
    unfolding groups_inv_def using fill' by blast
  with run show ?thesis by (simp add: for_body_def)
qed

lemma plan_groups:
  assumes quota: "daily_quota_of dh = Inr q" "0 < q" and ts: "ts \<noteq> []"
  shows "\<exists>groups. generate_simple_plan cs ts ds dh = Some (Inr (concat groups))
    \<and> length groups = length ts
    \<and> (\<forall>j<length ts.
          group_ok q (suggested_for (base_minutes_of q (length ts)) (level_at ds j))
            (course_at cs j) (ts ! j) (level_at ds j) (concat (take j groups)) (groups ! j))"
proof -
  let ?b = "base_minutes_of q (length ts)"
  have "groups_inv q ?b cs ds [] initial"
    using quota(2) by (simp add: groups_inv_def fill_inv_def initial_def)
  then have "\<exists>s'. for_loop q ?b cs ds (length ([]::string list)) ts initial = Some s'
      \<and> groups_inv q ?b cs ds ([] @ ts) s'"
    using groups_step [OF quota(2)]
    by (intro for_rule [where Q = "groups_inv q ?b cs ds"]) auto
  then obtain s' where run: "for_loop q ?b cs ds 0 ts initial = Some s'"
    and inv: "groups_inv q ?b cs ds ts s'" by auto
  from inv obtain groups where "plan s' = concat groups" "length groups = length ts"
    "\<forall>j<length ts. group_ok q (suggested_for ?b (level_at ds j)) (course_at cs j) (ts ! j)
                  (level_at ds j) (concat (take j groups)) (groups ! j)"
    unfolding groups_inv_def by blast
  with run quota(1) ts show ?thesis
    by (intro exI [of _ groups]) (simp add: generate_simple_plan_def)
qed

lemma filter_group:
  assumes "length groups = length ts" "distinct ts" "i < length ts"
    and "\<forall>j<length ts. \<forall>x\<in>set (groups ! j). f x = ts ! j"
  shows "filter (\<lambda>x. f x = ts ! i) (concat groups) = groups ! i"
  using assms
proof (induction groups ts arbitrary: i rule: list_induct2)
  case Nil
  then show ?case by simp
next
  case (Cons g groups t ts)
  have rest: "\<forall>j<length ts. \<forall>x\<in>set (groups ! j). f x = ts ! j"
    using Cons.prems(3) by fastforce
  have head: "\<forall>x\<in>set g. f x = t"
    using Cons.prems(3) by fastforce
  show ?case
  proof (cases i)
    case 0
    have "\<forall>x\<in>set (concat groups). f x \<noteq> t"
    proof
      fix x assume "x \<in> set (concat groups)"
      then obtain g' where "g' \<in> set groups" "x \<in> set g'" by auto
      then obtain j where j: "j < length groups" "x \<in> set (groups ! j)"
        by (metis in_set_conv_nth)
      with rest Cons.hyps have "f x = ts ! j" by simp
      moreover have "ts ! j \<noteq> t" using Cons.prems(1) j(1) Cons.hyps by auto
      ultimately show "f x \<noteq> t" by simp
    qed
    then have "filter (\<lambda>x. f x = t) (concat groups) = []" by (simp add: filter_empty_conv)
    moreover have "filter (\<lambda>x. f x = t) g = g" using head by (simp add: filter_id_conv)
    ultimately show ?thesis using 0 by simp
  next
    case (Suc k)
    then have k: "k < length ts" using Cons.prems(2) by simp
    have "ts ! k \<noteq> t" using Cons.prems(1) k by auto
    with head have "filter (\<lambda>x. f x = ts ! k) g = []" by (auto simp: filter_empty_conv)
    moreover have "filter (\<lambda>x. f x = ts ! k) (concat groups) = groups ! k"
      using Cons.IH [OF _ k rest] Cons.prems(1) by simp
    ultimately show ?thesis using Suc by simp
  qed
qed

subsection \<open>Day labels determine day numbers\<close>

lemma digit_inject:
  assumes "a < 10" "b < 10" "''0123456789'' ! a = ''0123456789'' ! b"
  shows "a = b"
proof -
  have "distinct ''0123456789''" by simp
  moreover have "a < length ''0123456789''" "b < length ''0123456789''" using assms by simp_all
  ultimately show ?thesis using assms(3) by (simp only: nth_eq_iff_index_eq)
qed

lemma str_nat_not_empty: "str_nat n \<noteq> []"
  by (subst str_nat.simps) simp

lemma str_nat_inject: "str_nat a = str_nat b \<Longrightarrow> a = b"
proof (induction a arbitrary: b rule: str_nat.induct)
  case (1 n)
  show ?case
  proof (cases "n < 10")
    case True
    then have n: "str_nat n = [''0123456789'' ! n]" by (subst str_nat.simps) simp
    show ?thesis
    proof (cases "b < 10")
      case b: True
      then have "str_nat b = [''0123456789'' ! b]" by (subst str_nat.simps) simp
      with n "1.prems" have "''0123456789'' ! n = ''0123456789'' ! b" by simp
      with True b show ?thesis by (rule digit_inject)
    next
      case False
      then have "str_nat b = str_nat (b div 10) @ [''0123456789'' ! (b mod 10)]"
        by (subst str_nat.simps) simp
      with n "1.prems" str_nat_not_empty [of "b div 10"] show ?thesis by simp
    qed
  next
    case False
    then have n: "str_nat n = str_nat (n div 10) @ [''0123456789'' ! (n mod 10)]"
      by (subst str_nat.simps) simp
    show ?thesis
    proof (cases "b < 10")
      case True
      then have "str_nat b = [''0123456789'' ! b]" by (subst str_nat.simps) simp
      with n "1.prems" str_nat_not_empty [of "n div 10"] show ?thesis by simp
    next
      case b: False
      then have "str_nat b = str_nat (b div 10) @ [''0123456789'' ! (b mod 10)]"
        by (subst str_nat.simps) simp
      with n "1.prems" have eq: "str_nat (n div 10) = str_nat (b div 10)"
        "''0123456789'' ! (n mod 10) = ''0123456789'' ! (b mod 10)" by simp_all
      from "1.IH" [OF False eq(1)] have d: "n div 10 = b div 10" .
      have "n mod 10 = b mod 10" using eq(2) by (intro digit_inject) simp_all
      with d show ?thesis by (metis div_mult_mod_eq)
    qed
  qed
qed

lemma day_label_inject:
  assumes "0 \<le> a" "0 \<le> b" "day_label a = day_label b"
  shows "a = b"
proof -
  from assms have "str_nat (nat a) = str_nat (nat b)"
    by (simp add: day_label_def str_int_def)
  then have "nat a = nat b" by (rule str_nat_inject)
  with assms(1,2) show ?thesis by simp
qed

section \<open>The claims\<close>

subsection \<open>C1: one run of chunks per topic, split when the day is full\<close>

text \<open>
  Claim C1, as stated, gives one chunk per topic for every daily hours value above zero,
  and never splits a topic across days. One hard topic with half an hour a day has a
  suggested total of 40 minutes and a quota of 30: the plan has two chunks for it, on
  day 1 and on day 2. And \<open>2 ^ - 7\<close> hours a day are above zero, but the quota is
  \<open>int(0.46875) = 0\<close> and the call returns no plan at all.
\<close>

theorem one_topic_split_over_two_days:
  "map topic (projr (the (generate_simple_plan [''Phys''] [''Motion''] [''hard'']
      (AsFloat (Finite 1 (- 1)))))) = [''Motion'', ''Motion'']
   \<and> map day (projr (the (generate_simple_plan [''Phys''] [''Motion''] [''hard'']
      (AsFloat (Finite 1 (- 1)))))) = [''Day 1'', ''Day 2'']
   \<and> generate_simple_plan [''Phys''] [''Motion''] [''hard''] (AsFloat (Finite 1 (- 7))) = None"
  by (simp add: half_hour_plan generate_diverges [OF quota_tiny])

text \<open>
  Claim C1, amended: for every non-empty topic list and every positive daily quota
  \<open>q\<close>, the plan is the concatenation, in input order, of one non-empty run of chunks
  per input topic. The first chunk of a topic has size
  \<open>min(suggestedMinutes, remaining quota for the current day)\<close>, where the remaining
  quota is \<open>q\<close> minus the minutes planned so far modulo \<open>q\<close> (a full day counts as
  a new one); the topic has exactly one chunk if and only if its suggested minutes do
  not exceed that remaining quota, and is split into several chunks otherwise.
\<close>

theorem topics_in_order_split_when_quota_runs_out:
  assumes "daily_quota_of dh = Inr q" and "0 < q" and "ts \<noteq> []"
  shows "\<exists>groups. generate_simple_plan cs ts ds dh = Some (Inr (concat groups))
    \<and> length groups = length ts
    \<and> (\<forall>i<length ts.
          groups ! i \<noteq> []
          \<and> (\<forall>x\<in>set (groups ! i). topic x = ts ! i)
          \<and> suggested_minutes (hd (groups ! i)) =
              min (suggested_for (base_minutes_of q (length ts)) (level_at ds i))
                (q - sum_list (map suggested_minutes (concat (take i groups))) mod q)
          \<and> (length (groups ! i) = 1 \<longleftrightarrow>
               suggested_for (base_minutes_of q (length ts)) (level_at ds i)
                 \<le> q - sum_list (map suggested_minutes (concat (take i groups))) mod q))"
proof -
  from plan_groups [OF assms, of cs ds] obtain groups where
    run: "generate_simple_plan cs ts ds dh = Some (Inr (concat groups))"
    and len: "length groups = length ts"
    and ok: "\<forall>j<length ts.
          group_ok q (suggested_for (base_minutes_of q (length ts)) (level_at ds j))
            (course_at cs j) (ts ! j) (level_at ds j) (concat (take j groups)) (groups ! j)"
    by blast
  from ok have "\<forall>i<length ts.
          groups ! i \<noteq> []
          \<and> (\<forall>x\<in>set (groups ! i). topic x = ts ! i)
          \<and> suggested_minutes (hd (groups ! i)) =
              min (suggested_for (base_minutes_of q (length ts)) (level_at ds i))
                (q - sum_list (map suggested_minutes (concat (take i groups))) mod q)
          \<and> (length (groups ! i) = 1 \<longleftrightarrow>
               suggested_for (base_minutes_of q (length ts)) (level_at ds i)
                 \<le> q - sum_list (map suggested_minutes (concat (take i groups))) mod q)"
    by (simp add: group_ok_def)
  with run len show ?thesis by blast
qed

text \<open>
  The theorem at half an hour a day and one hard topic: the first chunk has the 30
  minutes of the day, and the topic has more than one chunk.
\<close>

theorem topics_in_order_split_when_quota_runs_out_witness:
  "daily_quota_of (AsFloat (Finite 1 (- 1))) = Inr 30 \<and> (0::int) < 30 \<and> [''Motion''] \<noteq> []
   \<and> (\<exists>groups. generate_simple_plan [''Phys''] [''Motion''] [''hard'']
         (AsFloat (Finite 1 (- 1))) = Some (Inr (concat groups))
       \<and> length groups = 1
       \<and> suggested_minutes (hd (groups ! 0)) = 30
       \<and> length (groups ! 0) \<noteq> 1)"
proof -
  have pos: "(0::int) < 30" and ne: "[''Motion''] \<noteq> []" by simp_all
  from topics_in_order_split_when_quota_runs_out [OF quota_half_hour pos ne,
      of "[''Phys'']" "[''hard'']"]
  obtain groups where run: "generate_simple_plan [''Phys''] [''Motion''] [''hard'']
         (AsFloat (Finite 1 (- 1))) = Some (Inr (concat groups))"
    and len: "length groups = length [''Motion'']"
    and each: "\<forall>i<length [''Motion''].
          groups ! i \<noteq> []
          \<and> (\<forall>x\<in>set (groups ! i). topic x = [''Motion''] ! i)
          \<and> suggested_minutes (hd (groups ! i)) =
              min (suggested_for (base_minutes_of 30 (length [''Motion''])) (level_at [''hard''] i))
                (30 - sum_list (map suggested_minutes (concat (take i groups))) mod 30)
          \<and> (length (groups ! i) = 1 \<longleftrightarrow>
               suggested_for (base_minutes_of 30 (length [''Motion''])) (level_at [''hard''] i)
                 \<le> 30 - sum_list (map suggested_minutes (concat (take i groups))) mod 30)"
    by blast
  from each have "suggested_minutes (hd (groups ! 0)) = 30" "length (groups ! 0) \<noteq> 1"
    by (simp_all add: level_at_def suggested_for_def base_minutes_of_def)
  with run len quota_half_hour show ?thesis by auto
qed

subsection \<open>C2: a quota that is not positive\<close>

text \<open>
  Claim C2 says that the function terminates on every input, also when \<open>daily_hours\<close>
  parses to a value that is not positive. The string \<open>"0"\<close> is truthy and parses to
  \<open>0.0\<close>, so the quota is \<open>0\<close>: every pass of the \<open>while\<close> loop then carves
  a chunk of \<open>0\<close> minutes, \<open>remaining\<close> stays at \<open>15\<close>, and the call never returns.
\<close>

theorem zero_hours_never_returns:
  "generate_simple_plan [''Math''] [''Algebra''] [''easy''] (AsFloat (Finite 0 0)) = None"
  by (rule generate_diverges [OF quota_zero_string]) simp_all

subsection \<open>C3: a value of \<open>daily_hours\<close> that is not positive\<close>

text \<open>
  Claim C3 says that a \<open>daily_hours\<close> that is missing, cannot be parsed or parses to
  a value \<open>\<le> 0\<close> is treated as \<open>2.0\<close> hours, with a quota of \<open>120\<close> minutes. The
  \<open>try\<close> block does so for a falsy argument, the number \<open>0\<close> among them, and for one
  that \<open>float\<close> refuses (\<open>falsy_or_unparsable_hours_default\<close>); it has no test of the
  parsed value. The number \<open>-1\<close> is truthy and parses to \<open>-1.0\<close>: its quota is
  \<open>-60\<close> and not \<open>120\<close>, and the call never returns, where the call on \<open>2.0\<close> hours
  returns one chunk of 115 minutes.
\<close>

theorem negative_hours_not_defaulted:
  "daily_quota_of (AsFloat (Finite (- 1) 0)) = Inr (- 60)
   \<and> generate_simple_plan [''Math''] [''Algebra''] [''easy''] (AsFloat (Finite (- 1) 0)) = None
   \<and> generate_simple_plan [''Math''] [''Algebra''] [''easy''] (AsFloat (Finite 2 0)) =
       Some (Inr [\<lparr>day = ''Day 1'', course = ''Math'', topic = ''Algebra'',
                   difficulty = ''easy'', suggested_minutes = 115,
                   ai_hint = pick_hint ''easy'', break_after = Some 10\<rparr>])"
  by (simp add: quota_minus_one generate_diverges [OF quota_minus_one] two_hours_plan)

subsection \<open>C4: two hard topics with one hour a day\<close>

text \<open>
  Claim C4, as stated, gives two chunks for the topics Motion and Energy of the course
  Phys, both hard, with \<open>daily_hours = 1\<close>: the first with a break of 10 and the second
  with a break of 5. The plan does not have two chunks, its first chunk does not have a
  break of 10, and its second chunk does not have a break of 5.
\<close>

theorem physics_example_not_two_chunks:
  "length (projr (the (generate_simple_plan [''Phys'', ''Phys''] [''Motion'', ''Energy'']
      [''hard'', ''hard''] (AsFloat (Finite 1 0))))) \<noteq> 2
   \<and> break_after (hd (projr (the (generate_simple_plan [''Phys'', ''Phys''] [''Motion'', ''Energy'']
      [''hard'', ''hard''] (AsFloat (Finite 1 0)))))) \<noteq> Some 10
   \<and> break_after (projr (the (generate_simple_plan [''Phys'', ''Phys''] [''Motion'', ''Energy'']
      [''hard'', ''hard''] (AsFloat (Finite 1 0)))) ! 1) \<noteq> Some 5"
  by (simp add: physics_plan)

text \<open>
  Claim C4, amended: on that input the plan has three chunks: day 1 with 40 minutes and
  a break of 5, day 1 with 20 minutes and no break, and day 2 with 20 minutes and no
  break.
\<close>

theorem physics_example_three_chunks:
  "generate_simple_plan [''Phys'', ''Phys''] [''Motion'', ''Energy''] [''hard'', ''hard'']
     (AsFloat (Finite 1 0)) =
   Some (Inr
     [\<lparr>day = ''Day 1'', course = ''Phys'', topic = ''Motion'', difficulty = ''hard'',
        suggested_minutes = 40, ai_hint = pick_hint ''hard'', break_after = Some 5\<rparr>,
      \<lparr>day = ''Day 1'', course = ''Phys'', topic = ''Energy'', difficulty = ''hard'',
        suggested_minutes = 20, ai_hint = pick_hint ''hard'', break_after = None\<rparr>,
      \<lparr>day = ''Day 2'', course = ''Phys'', topic = ''Energy'', difficulty = ''hard'',
        suggested_minutes = 20, ai_hint = pick_hint ''hard'', break_after = None\<rparr>])"
  by (rule physics_plan)

subsection \<open>C5: chunks and \<open>used_today\<close> stay within the quota\<close>

text \<open>
  Claim C5: for every non-empty topic list and positive daily quota \<open>q\<close>, the function
  returns a plan, every chunk of it has between \<open>1\<close> and \<open>q\<close> minutes, and
  \<open>used_today\<close> is at most \<open>q\<close> at every point of the run.
\<close>

theorem chunk_and_used_today_within_quota:
  assumes "daily_quota_of dh = Inr q" and "0 < q" and "ts \<noteq> []"
  shows "(\<exists>pl. generate_simple_plan cs ts ds dh = Some (Inr pl)
           \<and> (\<forall>x\<in>set pl. 1 \<le> suggested_minutes x \<and> suggested_minutes x \<le> q))
    \<and> (\<forall>s. reaches cs ts ds dh s \<longrightarrow> used_today s \<le> q)"
proof
  have "\<exists>s. generate_simple_plan cs ts ds dh = Some (Inr (plan s)) \<and> bounds_inv q s"
  proof (rule generate_total_invariant [where P = "bounds_inv q", OF assms])
    show "bounds_inv q initial" by (rule bounds_inv_initial [OF assms(2)])
  next
    fix s r assume "bounds_inv q s"
    then show "bounds_inv q (s\<lparr>remaining := r\<rparr>)" by (rule bounds_inv_assign)
  next
    fix s c t l assume "bounds_inv q s" "0 < remaining s"
    then show "bounds_inv q (body q c t l s)" by (rule bounds_inv_step [OF assms(2)])
  qed
  then obtain s :: state where "generate_simple_plan cs ts ds dh = Some (Inr (plan s))"
    "\<forall>x\<in>set (plan s). 1 \<le> suggested_minutes x \<and> suggested_minutes x \<le> q"
    unfolding bounds_inv_def by blast
  then show "\<exists>pl. generate_simple_plan cs ts ds dh = Some (Inr pl)
           \<and> (\<forall>x\<in>set pl. 1 \<le> suggested_minutes x \<and> suggested_minutes x \<le> q)"
    by blast
next
  show "\<forall>s. reaches cs ts ds dh s \<longrightarrow> used_today s \<le> q"
  proof (intro allI impI)
    fix s assume "reaches cs ts ds dh s"
    then obtain q' h where "daily_quota_of dh = Inr q'"
      and h': "for_heads q' (base_minutes_of q' (length ts)) cs ds 0 ts initial h"
      and s': "s = h \<or> (0 < remaining h \<and> s = rollover q' h)"
      unfolding reaches_def by blast
    with assms(1) have "q' = q" by simp
    with h' s' have h: "for_heads q (base_minutes_of q (length ts)) cs ds 0 ts initial h"
      and s: "s = h \<or> (0 < remaining h \<and> s = rollover q h)" by simp_all
    have "bounds_inv q h"
    proof (rule for_heads_invariant [where P = "bounds_inv q", OF h assms(2)])
      show "bounds_inv q initial" by (rule bounds_inv_initial [OF assms(2)])
    next
      fix s r assume "bounds_inv q s"
      then show "bounds_inv q (s\<lparr>remaining := r\<rparr>)" by (rule bounds_inv_assign)
    next
      fix s c t l assume "bounds_inv q s" "0 < remaining s"
      then show "bounds_inv q (body q c t l s)" by (rule bounds_inv_step [OF assms(2)])
    qed
    then have "0 \<le> used_today h" "used_today h \<le> q" by (simp_all add: bounds_inv_def)
    with s assms(2) show "used_today s \<le> q" by auto
  qed
qed

text \<open>
  The theorem at two hours a day and one easy topic, for the state after the first pass
  of the \<open>while\<close> loop.
\<close>

theorem chunk_and_used_today_within_quota_witness:
  "daily_quota_of (AsFloat (Finite 2 0)) = Inr 120 \<and> (0::int) < 120 \<and> [''Algebra''] \<noteq> []
   \<and> reaches [''Math''] [''Algebra''] [''easy''] (AsFloat (Finite 2 0))
       (body 120 ''Math'' ''Algebra'' ''easy'' (initial\<lparr>remaining := 115\<rparr>))
   \<and> (\<exists>pl. generate_simple_plan [''Math''] [''Algebra''] [''easy''] (AsFloat (Finite 2 0))
          = Some (Inr pl)
        \<and> (\<forall>x\<in>set pl. 1 \<le> suggested_minutes x \<and> suggested_minutes x \<le> 120))
   \<and> used_today (body 120 ''Math'' ''Algebra'' ''easy'' (initial\<lparr>remaining := 115\<rparr>)) \<le> 120"
proof -
  let ?s0 = "initial\<lparr>remaining := 115\<rparr>"
  let ?s1 = "body 120 ''Math'' ''Algebra'' ''easy'' ?s0"
  have pos: "(0::int) < 120" and ne: "[''Algebra''] \<noteq> []" by simp_all
  have heads: "while_heads 120 ''Math'' ''Algebra'' ''easy'' ?s0 ?s1"
    by (rule next_test [OF first_test]) simp
  have "for_heads 120 (base_minutes_of 120 (length [''Algebra''])) [''Math''] [''easy''] 0
      [''Algebra''] initial ?s1"
  proof (rule this_topic)
    show "while_heads 120 (course_at [''Math''] 0) ''Algebra'' (level_at [''easy''] 0)
       (initial\<lparr>remaining := suggested_for (base_minutes_of 120 (length [''Algebra'']))
          (level_at [''easy''] 0)\<rparr>) ?s1"
      using heads
      by (simp add: course_at_def level_at_def suggested_for_def base_minutes_of_def)
  qed
  then have reach: "reaches [''Math''] [''Algebra''] [''easy''] (AsFloat (Finite 2 0)) ?s1"
    unfolding reaches_def using quota_default by blast
  note w = chunk_and_used_today_within_quota [OF quota_default pos ne, of "[''Math'']" "[''easy'']"]
  from w have "\<exists>pl. generate_simple_plan [''Math''] [''Algebra''] [''easy''] (AsFloat (Finite 2 0))
          = Some (Inr pl)
        \<and> (\<forall>x\<in>set pl. 1 \<le> suggested_minutes x \<and> suggested_minutes x \<le> 120)"
    by (rule conjunct1)
  moreover from w reach have "used_today ?s1 \<le> 120" by blast
  ultimately show ?thesis using quota_default reach by simp
qed

subsection \<open>C6: the days of the plan\<close>

text \<open>
  Claim C6: in every plan that the function returns, the \<open>day\<close> fields are the labels
  \<open>"Day N"\<close> of day numbers \<open>N\<close> that never decrease along the plan, and the first
  of them is \<open>1\<close>. (By \<open>day_label_inject\<close> the labels determine the numbers.)
\<close>

theorem days_nondecreasing_from_one:
  assumes "generate_simple_plan cs ts ds dh = Some (Inr pl)"
  shows "\<exists>ns. map day pl = map (\<lambda>n. ''Day '' @ str_int n) ns \<and> sorted ns
     \<and> (pl \<noteq> [] \<longrightarrow> hd ns = 1)"
proof -
  have "pl = [] \<or> (\<exists>q s. daily_quota_of dh = Inr q \<and> 0 < q \<and> days_inv q s \<and> pl = plan s)"
  proof (rule returned_plan_invariant [where P = days_inv, OF assms])
    fix q :: int assume "0 < q"
    then show "days_inv q initial"
      by (simp add: days_inv_def initial_def)
  next
    fix q s r assume "days_inv q s"
    then show "days_inv q (s\<lparr>remaining := r\<rparr>)" by (simp add: days_inv_def)
  next
    fix q s c t l assume "days_inv q s"
    then show "days_inv q (body q c t l s)" by (rule days_step)
  qed
  then show ?thesis
  proof
    assume "pl = []"
    then show ?thesis by (intro exI [of _ "[]"]) simp
  next
    assume "\<exists>q s. daily_quota_of dh = Inr q \<and> 0 < q \<and> days_inv q s \<and> pl = plan s"
    then obtain q s where "days_inv q s" "pl = plan s" by blast
    then obtain ns where "map day pl = map day_label ns" "sorted ns" "ns \<noteq> [] \<longrightarrow> hd ns = 1"
      unfolding days_inv_def by blast
    moreover from this(1) have "pl \<noteq> [] \<longrightarrow> ns \<noteq> []" by auto
    ultimately show ?thesis
      by (intro exI [of _ ns]) (simp add: day_label_def [abs_def])
  qed
qed

text \<open>
  The theorem at half an hour a day and one hard topic, whose plan has the days 1 and 2.
\<close>

theorem days_nondecreasing_from_one_witness:
  "generate_simple_plan [''Phys''] [''Motion''] [''hard''] (AsFloat (Finite 1 (- 1))) =
   Some (Inr
     [\<lparr>day = ''Day 1'', course = ''Phys'', topic = ''Motion'', difficulty = ''hard'',
        suggested_minutes = 30, ai_hint = pick_hint ''hard'', break_after = Some 5\<rparr>,
      \<lparr>day = ''Day 2'', course = ''Phys'', topic = ''Motion'', difficulty = ''hard'',
        suggested_minutes = 10, ai_hint = pick_hint ''hard'', break_after = None\<rparr>])
   \<and> (\<exists>ns. [''Day 1'', ''Day 2''] = map (\<lambda>n. ''Day '' @ str_int n) ns \<and> sorted ns \<and> hd ns = 1)"
  using days_nondecreasing_from_one [OF half_hour_plan] half_hour_plan
  by simp

subsection \<open>C7: the break after a chunk\<close>

text \<open>
  Claim C7: for every chunk of a plan that the function returns, \<open>break_after\<close> is
  \<open>10\<close> when the chunk has at least 60 minutes, \<open>5\<close> when it has at least 30 and less
  than 60, and \<open>None\<close> otherwise.
\<close>

theorem break_after_by_minutes:
  assumes "generate_simple_plan cs ts ds dh = Some (Inr pl)" and "x \<in> set pl"
  shows "break_after x =
    (if 60 \<le> suggested_minutes x then Some 10
     else if 30 \<le> suggested_minutes x then Some 5 else None)"
proof -
  have "pl = [] \<or> (\<exists>q (s::state). daily_quota_of dh = Inr q \<and> 0 < q
      \<and> (\<forall>x\<in>set (plan s). break_after x = break_for (suggested_minutes x)) \<and> pl = plan s)"
    by (rule returned_plan_invariant
        [where P = "\<lambda>q s. \<forall>x\<in>set (plan s). break_after x = break_for (suggested_minutes x)",
          OF assms(1)])
      (simp_all add: initial_def break_for_step)
  with assms(2) have "break_after x = break_for (suggested_minutes x)" by auto
  then show ?thesis by (simp add: break_for_def)
qed

text \<open>
  The theorem at two hours a day and one easy topic, whose only chunk has 115 minutes.
\<close>

theorem break_after_by_minutes_witness:
  "generate_simple_plan [''Math''] [''Algebra''] [''easy''] (AsFloat (Finite 2 0)) =
     Some (Inr [\<lparr>day = ''Day 1'', course = ''Math'', topic = ''Algebra'', difficulty = ''easy'',
                 suggested_minutes = 115, ai_hint = pick_hint ''easy'', break_after = Some 10\<rparr>])
   \<and> break_after \<lparr>day = ''Day 1'', course = ''Math'', topic = ''Algebra'', difficulty = ''easy'',
                 suggested_minutes = 115, ai_hint = pick_hint ''easy'', break_after = Some 10\<rparr>
       = (if (60::int) \<le> 115 then Some 10 else if (30::int) \<le> 115 then Some 5 else None)"
  using break_after_by_minutes [OF two_hours_plan,
      of "\<lparr>day = ''Day 1'', course = ''Math'', topic = ''Algebra'', difficulty = ''easy'',
                 suggested_minutes = 115, ai_hint = pick_hint ''easy'', break_after = Some 10\<rparr>"]
    two_hours_plan
  by simp

subsection \<open>C8: the chunks of a topic are contiguous and add up to its suggested total\<close>

text \<open>
  Claim C8: for every non-empty topic list and positive daily quota \<open>q\<close>, the plan is
  the concatenation of one run of chunks per entry of the topic list, and the minutes of
  the run of a topic add up to \<open>max(15, base + d)\<close>, with
  \<open>base = max(20, q // len(topics))\<close> and \<open>d\<close> being \<open>-5\<close> for easy, \<open>10\<close> for
  hard and \<open>0\<close> for any other difficulty. When no topic occurs twice in the list, the
  run of a topic holds all the chunks of the plan that carry its name.
\<close>

theorem topic_minutes_sum_to_suggested:
  assumes "daily_quota_of dh = Inr q" and "0 < q" and "ts \<noteq> []"
  shows "\<exists>groups. generate_simple_plan cs ts ds dh = Some (Inr (concat groups))
    \<and> length groups = length ts
    \<and> (\<forall>i<length ts.
          (\<forall>x\<in>set (groups ! i). topic x = ts ! i \<and> difficulty x = level_at ds i)
          \<and> sum_list (map suggested_minutes (groups ! i)) =
              max 15 (max 20 (q div int (length ts))
                + (if level_at ds i = ''easy'' then - 5
                   else if level_at ds i = ''hard'' then 10 else 0)))
    \<and> (distinct ts \<longrightarrow>
          (\<forall>i<length ts. filter (\<lambda>x. topic x = ts ! i) (concat groups) = groups ! i))"
proof -
  from plan_groups [OF assms, of cs ds] obtain groups where
    run: "generate_simple_plan cs ts ds dh = Some (Inr (concat groups))"
    and len: "length groups = length ts"
    and ok: "\<forall>j<length ts.
          group_ok q (suggested_for (base_minutes_of q (length ts)) (level_at ds j))
            (course_at cs j) (ts ! j) (level_at ds j) (concat (take j groups)) (groups ! j)"
    by blast
  have sug: "suggested_for (base_minutes_of q (length ts)) l =
      max 15 (max 20 (q div int (length ts))
        + (if l = ''easy'' then - 5 else if l = ''hard'' then 10 else 0))" for l
    by (simp add: suggested_for_def base_minutes_of_def)
  have each: "\<forall>i<length ts.
          (\<forall>x\<in>set (groups ! i). topic x = ts ! i \<and> difficulty x = level_at ds i)
          \<and> sum_list (map suggested_minutes (groups ! i)) =
              max 15 (max 20 (q div int (length ts))
                + (if level_at ds i = ''easy'' then - 5
                   else if level_at ds i = ''hard'' then 10 else 0))"
    using ok sug by (simp add: group_ok_def)
  have "\<forall>i<length ts. filter (\<lambda>x. topic x = ts ! i) (concat groups) = groups ! i"
    if "distinct ts"
  proof (intro allI impI)
    fix i assume "i < length ts"
    from filter_group [OF len that this, of topic] each
    show "filter (\<lambda>x. topic x = ts ! i) (concat groups) = groups ! i" by simp
  qed
  with run len each show ?thesis by blast
qed

text \<open>
  The theorem at one hour a day and two hard topics, with 40 minutes each.
\<close>

theorem topic_minutes_sum_to_suggested_witness:
  "daily_quota_of (AsFloat (Finite 1 0)) = Inr 60 \<and> (0::int) < 60
   \<and> [''Motion'', ''Energy''] \<noteq> []
   \<and> (\<exists>groups. generate_simple_plan [''Phys'', ''Phys''] [''Motion'', ''Energy'']
         [''hard'', ''hard''] (AsFloat (Finite 1 0)) = Some (Inr (concat groups))
       \<and> length groups = 2
       \<and> sum_list (map suggested_minutes (groups ! 0)) = 40
       \<and> sum_list (map suggested_minutes (groups ! 1)) = 40)"
proof -
  have pos: "(0::int) < 60" and ne: "[''Motion'', ''Energy''] \<noteq> []" by simp_all
  from topic_minutes_sum_to_suggested [OF quota_one_hour pos ne,
      of "[''Phys'', ''Phys'']" "[''hard'', ''hard'']"]
  obtain groups where run: "generate_simple_plan [''Phys'', ''Phys''] [''Motion'', ''Energy'']
         [''hard'', ''hard''] (AsFloat (Finite 1 0)) = Some (Inr (concat groups))"
    and len: "length groups = length [''Motion'', ''Energy'']"
    and sums: "\<forall>i<length [''Motion'', ''Energy''].
          (\<forall>x\<in>set (groups ! i). topic x = [''Motion'', ''Energy''] ! i
              \<and> difficulty x = level_at [''hard'', ''hard''] i)
          \<and> sum_list (map suggested_minutes (groups ! i)) =
              max 15 (max 20 (60 div int (length [''Motion'', ''Energy'']))
                + (if level_at [''hard'', ''hard''] i = ''easy'' then - 5
                   else if level_at [''hard'', ''hard''] i = ''hard'' then 10 else 0))"
    by blast
  from sums have "sum_list (map suggested_minutes (groups ! 0)) = 40"
    "sum_list (map suggested_minutes (groups ! 1)) = 40"
    by (simp_all add: level_at_def)
  with run len quota_one_hour show ?thesis by auto
qed

subsection \<open>C9: a value of \<open>daily_hours\<close> that raises\<close>

text \<open>
  Claim C9 says that an empty topic list gives an empty plan and that no input makes the
  function raise. The string \<open>"nan"\<close> is truthy and \<open>float\<close> accepts it, so the
  \<open>try\<close> block does not fall back to \<open>2.0\<close>; \<open>int(hours * 60)\<close>, which is outside
  the \<open>try\<close> and before the test for an empty topic list, raises \<open>ValueError\<close>.
\<close>

theorem nan_hours_raise:
  "generate_simple_plan [] [] [] (AsFloat NaN) = Some (Inl ValueError)
   \<and> generate_simple_plan [''Math''] [''Algebra''] [''easy''] (AsFloat NaN) = Some (Inl ValueError)"
  by (simp add: generate_simple_plan_def quota_nan)

subsection \<open>C10: \<open>courses\<close> or \<open>difficulties\<close> shorter than \<open>topics\<close>\<close>

text \<open>
  Claim C10: whatever the lengths of \<open>courses\<close> and \<open>difficulties\<close>, a plan that the
  function returns has chunks for every topic, and the chunks of a topic whose index is
  beyond the end of \<open>courses\<close> (of \<open>difficulties\<close>) have the course \<open>"General"\<close>
  (the difficulty \<open>"medium"\<close>); the others have the entry at their index. The function
  does return a plan whenever the daily quota is positive.
\<close>

theorem short_lists_use_defaults:
  "(generate_simple_plan cs ts ds dh = Some (Inr pl) \<longrightarrow>
      (\<exists>groups. pl = concat groups \<and> length groups = length ts
        \<and> (\<forall>i<length ts.
              groups ! i \<noteq> []
              \<and> (\<forall>x\<in>set (groups ! i).
                    topic x = ts ! i
                    \<and> (length cs \<le> i \<longrightarrow> course x = ''General'')
                    \<and> (i < length cs \<longrightarrow> course x = cs ! i)
                    \<and> (length ds \<le> i \<longrightarrow> difficulty x = ''medium'')
                    \<and> (i < length ds \<longrightarrow> difficulty x = ds ! i)))))
   \<and> (daily_quota_of dh = Inr q \<and> 0 < q \<longrightarrow>
        (\<exists>pl. generate_simple_plan cs ts ds dh = Some (Inr pl)))"
proof (intro conjI impI)
  assume run: "generate_simple_plan cs ts ds dh = Some (Inr pl)"
  from generate_returns [OF run]
  show "\<exists>groups. pl = concat groups \<and> length groups = length ts
        \<and> (\<forall>i<length ts.
              groups ! i \<noteq> []
              \<and> (\<forall>x\<in>set (groups ! i).
                    topic x = ts ! i
                    \<and> (length cs \<le> i \<longrightarrow> course x = ''General'')
                    \<and> (i < length cs \<longrightarrow> course x = cs ! i)
                    \<and> (length ds \<le> i \<longrightarrow> difficulty x = ''medium'')
                    \<and> (i < length ds \<longrightarrow> difficulty x = ds ! i)))"
  proof
    assume "ts = [] \<and> pl = []"
    then show ?thesis by (intro exI [of _ "[]"]) simp
  next
    assume "\<exists>q s. daily_quota_of dh = Inr q \<and> 0 < q \<and> ts \<noteq> [] \<and>
       for_loop q (base_minutes_of q (length ts)) cs ds 0 ts initial = Some s \<and> pl = plan s"
    then obtain q' where q': "daily_quota_of dh = Inr q'" "0 < q'" "ts \<noteq> []" by blast
    from plan_groups [OF q', of cs ds] run obtain groups where
      pl: "pl = concat groups" and len: "length groups = length ts"
      and ok: "\<forall>j<length ts.
          group_ok q' (suggested_for (base_minutes_of q' (length ts)) (level_at ds j))
            (course_at cs j) (ts ! j) (level_at ds j) (concat (take j groups)) (groups ! j)"
      by auto
    from ok have "\<forall>i<length ts.
              groups ! i \<noteq> []
              \<and> (\<forall>x\<in>set (groups ! i).
                    topic x = ts ! i
                    \<and> (length cs \<le> i \<longrightarrow> course x = ''General'')
                    \<and> (i < length cs \<longrightarrow> course x = cs ! i)
                    \<and> (length ds \<le> i \<longrightarrow> difficulty x = ''medium'')
                    \<and> (i < length ds \<longrightarrow> difficulty x = ds ! i))"
      by (simp add: group_ok_def course_at_def level_at_def)
    with pl len show ?thesis by blast
  qed
next
  assume q: "daily_quota_of dh = Inr q \<and> 0 < q"
  show "\<exists>pl. generate_simple_plan cs ts ds dh = Some (Inr pl)"
  proof (cases "ts = []")
    case True
    with q show ?thesis by (simp add: generate_simple_plan_def)
  next
    case False
    from plan_groups [of dh q ts cs ds] q False show ?thesis by blast
  qed
qed

text \<open>
  The theorem at two hours a day and one topic, with both other lists empty.
\<close>

theorem short_lists_use_defaults_witness:
  "generate_simple_plan [] [''Algebra''] [] (AsFloat (Finite 2 0)) =
     Some (Inr [\<lparr>day = ''Day 1'', course = ''General'', topic = ''Algebra'',
                 difficulty = ''medium'', suggested_minutes = 120,
                 ai_hint = pick_hint ''medium'', break_after = Some 10\<rparr>])
   \<and> daily_quota_of (AsFloat (Finite 2 0)) = Inr 120 \<and> (0::int) < 120
   \<and> (\<exists>groups. [\<lparr>day = ''Day 1'', course = ''General'', topic = ''Algebra'',
                 difficulty = ''medium'', suggested_minutes = 120,
                 ai_hint = pick_hint ''medium'', break_after = Some 10\<rparr>] = concat groups
        \<and> length groups = 1
        \<and> groups ! 0 \<noteq> []
        \<and> (\<forall>x\<in>set (groups ! 0). topic x = ''Algebra'' \<and> course x = ''General''
              \<and> difficulty x = ''medium''))
   \<and> (\<exists>pl. generate_simple_plan [] [''Algebra''] [] (AsFloat (Finite 2 0)) = Some (Inr pl))"
proof -
  let ?pl = "[\<lparr>day = ''Day 1'', course = ''General'', topic = ''Algebra'',
                 difficulty = ''medium'', suggested_minutes = 120,
                 ai_hint = pick_hint ''medium'', break_after = Some 10\<rparr>]"
  note both = short_lists_use_defaults
    [of "[]" "[''Algebra'']" "[]" "AsFloat (Finite 2 0)" ?pl 120]
  from both short_lists_plan obtain groups where "?pl = concat groups"
    "length groups = length [''Algebra'']"
    "\<forall>i<length [''Algebra''].
              groups ! i \<noteq> []
              \<and> (\<forall>x\<in>set (groups ! i).
                    topic x = [''Algebra''] ! i
                    \<and> (length ([]::string list) \<le> i \<longrightarrow> course x = ''General'')
                    \<and> (i < length ([]::string list) \<longrightarrow> course x = [] ! i)
                    \<and> (length ([]::string list) \<le> i \<longrightarrow> difficulty x = ''medium'')
                    \<and> (i < length ([]::string list) \<longrightarrow> difficulty x = [] ! i))"
    by blast
  then have "\<exists>groups. ?pl = concat groups
        \<and> length groups = 1
        \<and> groups ! 0 \<noteq> []
        \<and> (\<forall>x\<in>set (groups ! 0). topic x = ''Algebra'' \<and> course x = ''General''
              \<and> difficulty x = ''medium'')"
    by (intro exI [of _ groups]) simp
  moreover from both quota_default
  have "\<exists>pl. generate_simple_plan [] [''Algebra''] [] (AsFloat (Finite 2 0)) = Some (Inr pl)"
    by simp
  ultimately show ?thesis
    using short_lists_plan quota_default by simp
qed

end
